theory Spec2Isabelle
  imports Main "HOL-Library.Sublist"
begin

section \<open>Exceptions\<close>

text \<open>
  The exceptions the modelled code can end with. \<open>ValueError\<close> is what
  \<^verbatim>\<open>Path.relative_to\<close> raises; \<open>KeyError\<close> is a failed dictionary subscript;
  \<open>EngineError\<close> stands for any exception (a subclass of \<^verbatim>\<open>Exception\<close>) raised inside
  the vector-database client, tagged with a message. \<open>PathOutsideRootError\<close> is the
  name the specification's error taxonomy uses for a path outside the root: no class
  of that name is defined or raised anywhere in \<^verbatim>\<open>chromadb.py\<close>; the constructor exists
  only so that statements about it can be written down.
\<close>

datatype exn = ValueError | KeyError | EngineError string | PathOutsideRootError

section \<open>Paths\<close>

text \<open>
  A pure POSIX path as \<^verbatim>\<open>pathlib\<close> holds it: whether it starts at the root \<^verbatim>\<open>/\<close>,
  and its components (without the root).
\<close>

datatype path = Path (anchored: bool) (parts: "string list")

text \<open>\<^verbatim>\<open>"/".join(names)\<close>\<close>

fun join_sep :: "string list \<Rightarrow> string" where
  "join_sep [] = []"
| "join_sep [n] = n"
| "join_sep (n # m # ns) = n @ CHR ''/'' # join_sep (m # ns)"

text \<open>\<^verbatim>\<open>str(path)\<close>: the empty relative path prints as a dot.\<close>

definition str_path :: "path \<Rightarrow> string" where
  "str_path p =
     (if anchored p then CHR ''/'' # join_sep (parts p)
      else if parts p = [] then ''.''
      else join_sep (parts p))"

text \<open>\<^verbatim>\<open>path / name\<close>\<close>

definition joinpath :: "path \<Rightarrow> string \<Rightarrow> path" where
  "joinpath p n = Path (anchored p) (parts p @ [n])"

text \<open>\<^verbatim>\<open>path.parent\<close>\<close>

definition parent :: "path \<Rightarrow> path" where
  "parent p = Path (anchored p) (butlast (parts p))"


text \<open>
  \<^verbatim>\<open>path.relative_to(other)\<close>: the components of \<open>path\<close> after those of \<open>other\<close>, as a
  relative path; \<^verbatim>\<open>ValueError\<close> when \<open>other\<close> is not a leading part of \<open>path\<close> (the two
  must also agree on being absolute).
\<close>

definition relative_to :: "path \<Rightarrow> path \<Rightarrow> exn + path" where
  "relative_to p other =
     (if anchored p = anchored other \<and> prefix (parts other) (parts p)
      then Inr (Path False (drop (length (parts other)) (parts p)))
      else Inl ValueError)"

text \<open>\<^verbatim>\<open>s.startswith(d)\<close>\<close>

definition startswith :: "string \<Rightarrow> string \<Rightarrow> bool" where
  "startswith s d = prefix d s"

text \<open>
  \<^verbatim>\<open>fnmatch.fnmatchcase(name, pat)\<close> for patterns built from literal characters,
  \<^verbatim>\<open>*\<close> (any run of characters, also none) and \<^verbatim>\<open>?\<close> (any one character).
  Bracket classes are not modelled; no pattern of the routing table has a bracket.
\<close>

fun fnmatchcase :: "string \<Rightarrow> string \<Rightarrow> bool" where
  "fnmatchcase [] [] = True"
| "fnmatchcase (c # cs) [] = False"
| "fnmatchcase [] (p # ps) = (p = CHR ''*'' \<and> fnmatchcase [] ps)"
| "fnmatchcase (c # cs) (p # ps) =
     (if p = CHR ''*'' then fnmatchcase (c # cs) ps \<or> fnmatchcase cs (p # ps)
      else (p = CHR ''?'' \<or> p = c) \<and> fnmatchcase cs ps)"

text \<open>
  \<^verbatim>\<open>path.match(pat)\<close> for a relative pattern of one component (one without a slash,
  as every pattern of the routing table is): the pattern is matched from the right,
  that is against the last element of \<^verbatim>\<open>path.parts\<close>. For the bare root that element
  is \<^verbatim>\<open>"/"\<close>; a path with no parts at all matches nothing.
\<close>

definition path_match :: "path \<Rightarrow> string \<Rightarrow> bool" where
  "path_match p pat =
     (case rev (parts p) of
        [] \<Rightarrow> anchored p \<and> fnmatchcase ''/'' pat
      | n # _ \<Rightarrow> fnmatchcase n pat)"

section \<open>The routing table\<close>

record mapping =
  directories :: "string list"
  file_pattern :: string
  type_tag :: string

text \<open>
  \<^verbatim>\<open>COLLECTION_MAPPINGS\<close>: a dictionary literal, iterated in the order it is written, so
  it is kept as an association list. The field \<open>type_tag\<close> is the key \<^verbatim>\<open>"type"\<close>.
\<close>

definition COLLECTION_MAPPINGS :: "(string \<times> mapping) list" where
  "COLLECTION_MAPPINGS =
     [(''business-and-architecture'',
         \<lparr>directories = [''docs/adrs'', ''docs/business''], file_pattern = ''*.md'',
          type_tag = ''adr''\<rparr>),
      (''features'',
         \<lparr>directories = [''docs/features''], file_pattern = ''*.feature'',
          type_tag = ''feature''\<rparr>),
      (''tech-specs'',
         \<lparr>directories = [''docs/ts4''], file_pattern = ''*.ts4'',
          type_tag = ''ts4''\<rparr>),
      (''uisi'',
         \<lparr>directories = [''docs/ui-intent''], file_pattern = ''*.yaml'',
          type_tag = ''ui-intent''\<rparr>)]"

definition REQUIRED_COLLECTIONS :: "string list" where
  "REQUIRED_COLLECTIONS = map fst COLLECTION_MAPPINGS"

section \<open>The path classifier\<close>

text \<open>
  \<^verbatim>\<open>get_collection_for_file\<close>: the inner loop over the directories of one mapping
  (\<open>None\<close>: the loop ended without returning), the outer loop over the items of the
  table, and the function itself, which first takes the path relative to the root.
\<close>

fun collection_dirs_loop :: "path \<Rightarrow> path \<Rightarrow> string \<Rightarrow> mapping \<Rightarrow> string list \<Rightarrow> string option" where
  "collection_dirs_loop file_path relative_path collection_name m [] = None"
| "collection_dirs_loop file_path relative_path collection_name m (directory # ds) =
     (if startswith (str_path relative_path) directory
      then (if path_match file_path (file_pattern m) then Some collection_name
            else collection_dirs_loop file_path relative_path collection_name m ds)
      else collection_dirs_loop file_path relative_path collection_name m ds)"

fun collection_items_loop :: "path \<Rightarrow> path \<Rightarrow> (string \<times> mapping) list \<Rightarrow> string option" where
  "collection_items_loop file_path relative_path [] = None"
| "collection_items_loop file_path relative_path ((collection_name, m) # items) =
     (case collection_dirs_loop file_path relative_path collection_name m (directories m) of
        Some r \<Rightarrow> Some r
      | None \<Rightarrow> collection_items_loop file_path relative_path items)"

definition get_collection_for_file :: "path \<Rightarrow> path \<Rightarrow> exn + string option" where
  "get_collection_for_file file_path project_root =
     (case relative_to file_path project_root of
        Inl e \<Rightarrow> Inl e
      | Inr relative_path \<Rightarrow>
          Inr (collection_items_loop file_path relative_path COLLECTION_MAPPINGS))"

text \<open>\<^verbatim>\<open>get_file_type\<close>: the same two loops, returning \<^verbatim>\<open>mapping["type"]\<close>.\<close>

fun type_dirs_loop :: "path \<Rightarrow> path \<Rightarrow> string \<Rightarrow> mapping \<Rightarrow> string list \<Rightarrow> string option" where
  "type_dirs_loop file_path relative_path collection_name m [] = None"
| "type_dirs_loop file_path relative_path collection_name m (directory # ds) =
     (if startswith (str_path relative_path) directory
      then (if path_match file_path (file_pattern m) then Some (type_tag m)
            else type_dirs_loop file_path relative_path collection_name m ds)
      else type_dirs_loop file_path relative_path collection_name m ds)"

fun type_items_loop :: "path \<Rightarrow> path \<Rightarrow> (string \<times> mapping) list \<Rightarrow> string option" where
  "type_items_loop file_path relative_path [] = None"
| "type_items_loop file_path relative_path ((collection_name, m) # items) =
     (case type_dirs_loop file_path relative_path collection_name m (directories m) of
        Some r \<Rightarrow> Some r
      | None \<Rightarrow> type_items_loop file_path relative_path items)"

definition get_file_type :: "path \<Rightarrow> path \<Rightarrow> exn + string option" where
  "get_file_type file_path project_root =
     (case relative_to file_path project_root of
        Inl e \<Rightarrow> Inl e
      | Inr relative_path \<Rightarrow>
          Inr (type_items_loop file_path relative_path COLLECTION_MAPPINGS))"

subsection \<open>The matching rule as the specification words it\<close>

text \<open>
  The table flattened into its (collection, directory, pattern, type) rows: mappings in
  the table's order, the directories of each in their declared order.
\<close>

definition routing_rows :: "(string \<times> mapping) list \<Rightarrow> (string \<times> string \<times> string \<times> string) list" where
  "routing_rows tbl =
     concat (map (\<lambda>(n, m). map (\<lambda>d. (n, d, file_pattern m, type_tag m)) (directories m)) tbl)"



subsection \<open>Lying under a mapped directory\<close>





section \<open>The backing engine, as the store uses it\<close>

text \<open>
  A metadata object is a dictionary; \<^verbatim>\<open>{}\<close> is the empty list. The store never looks
  inside documents or metadata values, it only passes them on.
\<close>

type_synonym metadata = "(string \<times> string) list"

text \<open>A keyword-argument dictionary \<^verbatim>\<open>**kwargs\<close>, in insertion order.\<close>

datatype arg = Strs "string list" | Metas "metadata list"

type_synonym kwargs = "(string \<times> arg) list"

text \<open>
  The dictionary \<^verbatim>\<open>col.get(...)\<close> returns, with the three keys the store reads.
  \<open>None\<close>: the key is missing or holds \<^verbatim>\<open>None\<close>.
\<close>

record get_result =
  r_ids :: "string list option"
  r_documents :: "string list option"
  r_metadatas :: "metadata list option"

text \<open>
  A computation that may raise: the result is an exception or a value, and the state
  is there in both cases (a handler goes on from the state the failed call left).
\<close>

type_synonym ('a, 's) prog = "'s \<Rightarrow> (exn + 'a) \<times> 's"

definition ret :: "'a \<Rightarrow> ('a, 's) prog" where
  "ret a = (\<lambda>s. (Inr a, s))"

definition raise :: "exn \<Rightarrow> ('a, 's) prog" where
  "raise e = (\<lambda>s. (Inl e, s))"

definition then_do :: "('a, 's) prog \<Rightarrow> ('a \<Rightarrow> ('b, 's) prog) \<Rightarrow> ('b, 's) prog" where
  "then_do m f = (\<lambda>s. case m s of (Inl e, s') \<Rightarrow> (Inl e, s') | (Inr a, s') \<Rightarrow> f a s')"

text \<open>\<^verbatim>\<open>try: m  except Exception: h\<close>\<close>

definition try_except :: "('a, 's) prog \<Rightarrow> (exn \<Rightarrow> ('a, 's) prog) \<Rightarrow> ('a, 's) prog" where
  "try_except m h = (\<lambda>s. case m s of (Inl e, s') \<Rightarrow> h e s' | (Inr a, s') \<Rightarrow> (Inr a, s'))"

text \<open>
  The operations of the outside world that \<^verbatim>\<open>chromadb.py\<close> calls: the two file-system
  calls of \<^verbatim>\<open>get_chromadb_client\<close>, the constructor of the client, the client's methods
  and the methods of a collection handle. \<open>'c\<close> is a client, \<open>'h\<close> a collection handle,
  \<open>'w\<close> the state of the world (disk and database). The engine is a parameter: the
  store is modelled against any engine.
\<close>

record ('c, 'h, 'w) engine =
  mkdir_parents :: "path \<Rightarrow> (unit, 'w) prog"
  resolve :: "'w \<Rightarrow> path \<Rightarrow> path"
  persistent_client :: "string \<Rightarrow> ('c, 'w) prog"
  client_list_collections :: "'c \<Rightarrow> (string list, 'w) prog"
  client_get_or_create_collection :: "'c \<Rightarrow> string \<Rightarrow> metadata option \<Rightarrow> ('h, 'w) prog"
  client_get_collection :: "'c \<Rightarrow> string \<Rightarrow> ('h, 'w) prog"
  client_create_collection :: "'c \<Rightarrow> string \<Rightarrow> metadata \<Rightarrow> ('h, 'w) prog"
  client_delete_collection :: "'c \<Rightarrow> string \<Rightarrow> (unit, 'w) prog"
  col_get :: "'h \<Rightarrow> string list option \<Rightarrow> string list option \<Rightarrow> (get_result, 'w) prog"
  col_add :: "'h \<Rightarrow> string list \<Rightarrow> string list \<Rightarrow> metadata list \<Rightarrow> (unit, 'w) prog"
  col_update :: "'h \<Rightarrow> kwargs \<Rightarrow> (unit, 'w) prog"
  col_delete :: "'h \<Rightarrow> string list \<Rightarrow> (unit, 'w) prog"
  col_modify :: "'h \<Rightarrow> string option \<Rightarrow> metadata option \<Rightarrow> (unit, 'w) prog"

text \<open>
  \<open>client_list_collections\<close> gives the names (\<^verbatim>\<open>[col.name for col in ...]\<close> is folded
  into it). \<open>col_get h ids incl\<close> is \<^verbatim>\<open>col.get(ids=..., include=...)\<close> and
  \<open>col_modify h name metadata\<close> is \<^verbatim>\<open>col.modify(name=..., metadata=...)\<close>, an absent
  keyword being \<open>None\<close>.
\<close>

section \<open>The store\<close>

text \<open>The fields \<^verbatim>\<open>_project_root\<close> and \<^verbatim>\<open>_client\<close> of \<^verbatim>\<open>ChromaDBContextStore\<close>.\<close>

record 'c store =
  store_root :: path
  store_client :: "'c option"

text \<open>A call into the engine from a method of the store: the store itself is unchanged.\<close>

definition on_world :: "('a, 'w) prog \<Rightarrow> ('a, 'c store \<times> 'w) prog" where
  "on_world m = (\<lambda>(st, w). case m w of (r, w') \<Rightarrow> (r, (st, w')))"

text \<open>\<^verbatim>\<open>x or d\<close> for an optional list, dictionary or string \<open>x\<close>: \<open>d\<close> when \<open>x\<close> is
  \<^verbatim>\<open>None\<close> or empty.\<close>

definition py_or :: "'a list option \<Rightarrow> 'a list \<Rightarrow> 'a list" where
  "py_or x d = (case x of None \<Rightarrow> d | Some v \<Rightarrow> if v = [] then d else v)"

definition get_chromadb_path :: "path \<Rightarrow> path" where
  "get_chromadb_path root =
     joinpath (joinpath (joinpath (joinpath root ''.cliplin'') ''data'') ''context'')
       ''chroma.sqlite3''"

text \<open>
  \<^verbatim>\<open>get_chromadb_client\<close>: the handler around the constructor prints and re-raises, so
  the exception goes through; console output is not modelled.
\<close>

definition get_chromadb_client :: "('c, 'h, 'w) engine \<Rightarrow> path \<Rightarrow> ('c, 'w) prog" where
  "get_chromadb_client E root =
     (let db_path = get_chromadb_path root in
      then_do (mkdir_parents E (parent db_path)) (\<lambda>_.
      (\<lambda>w. persistent_client E (str_path (resolve E w (parent db_path))) w)))"

text \<open>\<^verbatim>\<open>verify_collections\<close>\<close>

definition verify_collections :: "('c, 'h, 'w) engine \<Rightarrow> 'c \<Rightarrow> (string list, 'w) prog" where
  "verify_collections E client =
     then_do (client_list_collections E client) (\<lambda>existing_collections.
     ret (filter (\<lambda>col. col \<notin> set existing_collections) REQUIRED_COLLECTIONS))"

text \<open>\<^verbatim>\<open>_client_or_raise\<close>\<close>

definition client_or_raise :: "('c, 'h, 'w) engine \<Rightarrow> ('c, 'c store \<times> 'w) prog" where
  "client_or_raise E =
     (\<lambda>(st, w). case store_client st of
        Some c \<Rightarrow> (Inr c, (st, w))
      | None \<Rightarrow>
          (case get_chromadb_client E (store_root st) w of
             (Inl e, w') \<Rightarrow> (Inl e, (st, w'))
           | (Inr c, w') \<Rightarrow> (Inr c, (st\<lparr>store_client := Some c\<rparr>, w'))))"

text \<open>The loop of \<^verbatim>\<open>ensure_collections\<close> over the missing names.\<close>

fun create_missing :: "('c, 'h, 'w) engine \<Rightarrow> 'c \<Rightarrow> string list \<Rightarrow> (unit, 'w) prog" where
  "create_missing E client [] w = (Inr (), w)"
| "create_missing E client (name # names) w =
     (case client_get_or_create_collection E client name None w of
        (Inl e, w') \<Rightarrow> (Inl e, w')
      | (Inr _, w') \<Rightarrow> create_missing E client names w')"

definition ensure_collections :: "('c, 'h, 'w) engine \<Rightarrow> (string list, 'c store \<times> 'w) prog" where
  "ensure_collections E =
     then_do (client_or_raise E) (\<lambda>client.
     then_do (on_world (verify_collections E client)) (\<lambda>missing.
     then_do (on_world (create_missing E client missing)) (\<lambda>_.
     ret missing)))"

text \<open>
  \<^verbatim>\<open>document_exists\<close>: \<^verbatim>\<open>existing["ids"]\<close> on a result without that entry raises inside
  the \<^verbatim>\<open>try\<close>; the handler turns every exception into \<^verbatim>\<open>False\<close>.
\<close>

definition document_exists ::
  "('c, 'h, 'w) engine \<Rightarrow> string \<Rightarrow> string \<Rightarrow> (bool, 'c store \<times> 'w) prog" where
  "document_exists E collection_name document_id =
     try_except
       (then_do (client_or_raise E) (\<lambda>client.
        then_do (on_world (client_get_collection E client collection_name)) (\<lambda>col.
        then_do (on_world (col_get E col (Some [document_id]) None)) (\<lambda>existing.
        (case r_ids existing of
           None \<Rightarrow> raise KeyError
         | Some ids \<Rightarrow> ret (length ids > 0))))))
       (\<lambda>e. ret False)"

definition add_documents ::
  "('c, 'h, 'w) engine \<Rightarrow> string \<Rightarrow> string list \<Rightarrow> string list \<Rightarrow> metadata list option
     \<Rightarrow> (int, 'c store \<times> 'w) prog" where
  "add_documents E collection_name ids documents metadatas =
     (let metadatas1 = py_or metadatas (replicate (length ids) []);
          metadatas2 = (if length metadatas1 \<noteq> length ids then replicate (length ids) []
                        else metadatas1)
      in then_do (client_or_raise E) (\<lambda>client.
         then_do (on_world (client_get_collection E client collection_name)) (\<lambda>col.
         then_do (on_world (col_add E col ids documents metadatas2)) (\<lambda>_.
         ret (int (length ids))))))"

definition update_documents ::
  "('c, 'h, 'w) engine \<Rightarrow> string \<Rightarrow> string list \<Rightarrow> string list option
     \<Rightarrow> metadata list option \<Rightarrow> (int, 'c store \<times> 'w) prog" where
  "update_documents E collection_name ids documents metadatas =
     then_do (client_or_raise E) (\<lambda>client.
     then_do (on_world (client_get_collection E client collection_name)) (\<lambda>col.
     (let kwargs0 = [(''ids'', Strs ids)];
          kwargs1 = (case documents of None \<Rightarrow> kwargs0
                     | Some d \<Rightarrow> kwargs0 @ [(''documents'', Strs d)]);
          kwargs2 = (case metadatas of None \<Rightarrow> kwargs1
                     | Some m \<Rightarrow> kwargs1 @ [(''metadatas'', Metas m)])
      in then_do (on_world (col_update E col kwargs2)) (\<lambda>_.
         ret (int (length ids))))))"


definition modify_collection ::
  "('c, 'h, 'w) engine \<Rightarrow> string \<Rightarrow> string option \<Rightarrow> metadata option
     \<Rightarrow> (unit, 'c store \<times> 'w) prog" where
  "modify_collection E collection_name new_name new_metadata =
     then_do (client_or_raise E) (\<lambda>client.
     then_do (on_world (client_get_collection E client collection_name)) (\<lambda>col.
     then_do (case new_metadata of
                None \<Rightarrow> ret ()
              | Some md \<Rightarrow> on_world (col_modify E col None (Some md))) (\<lambda>_.
     (case new_name of
        None \<Rightarrow> ret ()
      | Some n \<Rightarrow> on_world (col_modify E col (Some n) None)))))"

definition fork_collection ::
  "('c, 'h, 'w) engine \<Rightarrow> string \<Rightarrow> string \<Rightarrow> metadata option
     \<Rightarrow> (unit, 'c store \<times> 'w) prog" where
  "fork_collection E collection_name new_collection_name metadata =
     then_do (client_or_raise E) (\<lambda>client.
     then_do (on_world (client_get_collection E client collection_name)) (\<lambda>col.
     then_do (on_world (col_get E col None (Some [''documents'', ''metadatas'']))) (\<lambda>data.
     then_do (try_except (on_world (client_delete_collection E client new_collection_name))
                (\<lambda>e. ret ())) (\<lambda>_.
     then_do (on_world (client_create_collection E client new_collection_name
                (py_or metadata []))) (\<lambda>new_col.
     (let ids = py_or (r_ids data) [] in
      if ids \<noteq> []
      then on_world (col_add E new_col ids
             (py_or (r_documents data) (replicate (length ids) ''''))
             (py_or (r_metadatas data) (replicate (length ids) [])))
      else ret ()))))))"

section \<open>Recording the calls made to the engine\<close>

text \<open>One entry per call of an engine operation, with its arguments.\<close>

datatype ('c, 'h) call =
    Mkdir path
  | PersistentClient string
  | ListCollections 'c
  | GetOrCreateCollection 'c string "metadata option"
  | GetCollection 'c string
  | CreateCollection 'c string metadata
  | DeleteCollection 'c string
  | ColGet 'h "string list option" "string list option"
  | ColAdd 'h "string list" "string list" "metadata list"
  | ColUpdate 'h kwargs
  | ColDelete 'h "string list"
  | ColModify 'h "string option" "metadata option"

definition log_call :: "('c, 'h) call \<Rightarrow> ('a, 'w) prog \<Rightarrow> ('a, 'w \<times> ('c, 'h) call list) prog" where
  "log_call c m = (\<lambda>(w, l). case m w of (r, w') \<Rightarrow> (r, (w', l @ [c])))"

text \<open>
  \<open>logged E\<close> behaves as \<open>E\<close> and appends every call it receives, failed or not, to a
  log kept beside the world. (\<open>resolve\<close> only reads, and is not recorded.)
\<close>

definition logged :: "('c, 'h, 'w) engine \<Rightarrow> ('c, 'h, 'w \<times> ('c, 'h) call list) engine" where
  "logged E =
     \<lparr>mkdir_parents = (\<lambda>p. log_call (Mkdir p) (mkdir_parents E p)),
      resolve = (\<lambda>(w, l). resolve E w),
      persistent_client = (\<lambda>p. log_call (PersistentClient p) (persistent_client E p)),
      client_list_collections = (\<lambda>c. log_call (ListCollections c) (client_list_collections E c)),
      client_get_or_create_collection =
        (\<lambda>c n md. log_call (GetOrCreateCollection c n md)
                     (client_get_or_create_collection E c n md)),
      client_get_collection = (\<lambda>c n. log_call (GetCollection c n) (client_get_collection E c n)),
      client_create_collection =
        (\<lambda>c n md. log_call (CreateCollection c n md) (client_create_collection E c n md)),
      client_delete_collection =
        (\<lambda>c n. log_call (DeleteCollection c n) (client_delete_collection E c n)),
      col_get = (\<lambda>h ids incl. log_call (ColGet h ids incl) (col_get E h ids incl)),
      col_add = (\<lambda>h ids docs metas. log_call (ColAdd h ids docs metas)
                   (col_add E h ids docs metas)),
      col_update = (\<lambda>h kw. log_call (ColUpdate h kw) (col_update E h kw)),
      col_delete = (\<lambda>h ids. log_call (ColDelete h ids) (col_delete E h ids)),
      col_modify = (\<lambda>h n md. log_call (ColModify h n md) (col_modify E h n md))\<rparr>"

section \<open>A reference engine\<close>

text \<open>
  An in-memory engine that behaves as the specification describes the backing engine:
  collections are kept by name in creation order, each with its metadata and its
  documents (id, text, metadata) in insertion order. Getting or deleting an absent
  collection, creating one whose name is taken, adding to a collection an empty batch,
  lists of unequal length or an id that is already there, and updating an id that is
  not there all raise; deleting an id that is not there does nothing. A handle is the
  collection's name, the one client is the unit value, and the file-system calls
  succeed. It serves to run the store on concrete data; it is not part of
  \<^verbatim>\<open>chromadb.py\<close>.
\<close>

record mem_collection =
  c_metadata :: metadata
  c_docs :: "(string \<times> string \<times> metadata) list"

type_synonym mem_world = "(string \<times> mem_collection) list"

definition upd_col :: "string \<Rightarrow> (mem_collection \<Rightarrow> mem_collection) \<Rightarrow> mem_world \<Rightarrow> mem_world" where
  "upd_col h f w = map (\<lambda>(k, v). if k = h then (k, f v) else (k, v)) w"

definition mem_get_or_create :: "string \<Rightarrow> metadata option \<Rightarrow> (string, mem_world) prog" where
  "mem_get_or_create n md w =
     (if n \<in> set (map fst w) then (Inr n, w)
      else (Inr n, w @ [(n, \<lparr>c_metadata = py_or md [], c_docs = []\<rparr>)]))"

definition mem_get_collection :: "string \<Rightarrow> (string, mem_world) prog" where
  "mem_get_collection n w =
     (if n \<in> set (map fst w) then (Inr n, w) else (Inl (EngineError ''NotFoundError''), w))"

definition mem_create :: "string \<Rightarrow> metadata \<Rightarrow> (string, mem_world) prog" where
  "mem_create n md w =
     (if n \<in> set (map fst w) then (Inl (EngineError ''UniqueConstraintError''), w)
      else (Inr n, w @ [(n, \<lparr>c_metadata = md, c_docs = []\<rparr>)]))"

definition mem_delete_collection :: "string \<Rightarrow> (unit, mem_world) prog" where
  "mem_delete_collection n w =
     (if n \<in> set (map fst w) then (Inr (), filter (\<lambda>(k, v). k \<noteq> n) w)
      else (Inl (EngineError ''NotFoundError''), w))"

definition mem_get :: "string \<Rightarrow> string list option \<Rightarrow> string list option \<Rightarrow> (get_result, mem_world) prog" where
  "mem_get h ids incl w =
     (case map_of w h of
        None \<Rightarrow> (Inl (EngineError ''NotFoundError''), w)
      | Some col \<Rightarrow>
          (let ds = (case ids of None \<Rightarrow> c_docs col
                     | Some sel \<Rightarrow> filter (\<lambda>(i, d, m). i \<in> set sel) (c_docs col));
               inc = (case incl of None \<Rightarrow> [''metadatas'', ''documents''] | Some i \<Rightarrow> i)
           in (Inr \<lparr>r_ids = Some (map fst ds),
                    r_documents = (if ''documents'' \<in> set inc
                                   then Some (map (\<lambda>(i, d, m). d) ds) else None),
                    r_metadatas = (if ''metadatas'' \<in> set inc
                                   then Some (map (\<lambda>(i, d, m). m) ds) else None)\<rparr>, w)))"

definition mem_add :: "string \<Rightarrow> string list \<Rightarrow> string list \<Rightarrow> metadata list \<Rightarrow> (unit, mem_world) prog" where
  "mem_add h ids docs metas w =
     (case map_of w h of
        None \<Rightarrow> (Inl (EngineError ''NotFoundError''), w)
      | Some col \<Rightarrow>
          if ids = [] then (Inl (EngineError ''EmptyBatchError''), w)
          else if length docs \<noteq> length ids \<or> length metas \<noteq> length ids
          then (Inl (EngineError ''DimensionMismatchError''), w)
          else if \<not> distinct ids \<or> (\<exists>i \<in> set ids. i \<in> set (map fst (c_docs col)))
          then (Inl (EngineError ''DuplicateDocumentError''), w)
          else (Inr (), upd_col h (\<lambda>c. c\<lparr>c_docs := c_docs c @ zip ids (zip docs metas)\<rparr>) w))"

definition mem_update :: "string \<Rightarrow> kwargs \<Rightarrow> (unit, mem_world) prog" where
  "mem_update h kw w =
     (case (map_of w h, map_of kw ''ids'') of
        (Some col, Some (Strs ids)) \<Rightarrow>
          if \<not> set ids \<subseteq> set (map fst (c_docs col))
          then (Inl (EngineError ''DocumentNotFoundError''), w)
          else (Inr (), upd_col h (\<lambda>c. c\<lparr>c_docs :=
                  map (\<lambda>(i, d, m).
                        (i,
                         (case map_of kw ''documents'' of
                            Some (Strs ds) \<Rightarrow> (case map_of (zip ids ds) i of Some d' \<Rightarrow> d' | None \<Rightarrow> d)
                          | _ \<Rightarrow> d),
                         (case map_of kw ''metadatas'' of
                            Some (Metas ms) \<Rightarrow> (case map_of (zip ids ms) i of Some m' \<Rightarrow> m' | None \<Rightarrow> m)
                          | _ \<Rightarrow> m)))
                      (c_docs c)\<rparr>) w)
      | (None, _) \<Rightarrow> (Inl (EngineError ''NotFoundError''), w)
      | _ \<Rightarrow> (Inl (EngineError ''TypeError''), w))"

definition mem_delete :: "string \<Rightarrow> string list \<Rightarrow> (unit, mem_world) prog" where
  "mem_delete h ids w =
     (case map_of w h of
        None \<Rightarrow> (Inl (EngineError ''NotFoundError''), w)
      | Some col \<Rightarrow>
          (Inr (), upd_col h (\<lambda>c. c\<lparr>c_docs := filter (\<lambda>(i, d, m). i \<notin> set ids) (c_docs c)\<rparr>) w))"

definition mem_modify :: "string \<Rightarrow> string option \<Rightarrow> metadata option \<Rightarrow> (unit, mem_world) prog" where
  "mem_modify h new_name new_md w =
     (case map_of w h of
        None \<Rightarrow> (Inl (EngineError ''NotFoundError''), w)
      | Some col \<Rightarrow>
          (case new_name of
             Some n \<Rightarrow>
               if n \<noteq> h \<and> n \<in> set (map fst w)
               then (Inl (EngineError ''UniqueConstraintError''), w)
               else (Inr (), map (\<lambda>(k, v). if k = h
                                   then (n, (case new_md of None \<Rightarrow> v
                                             | Some md \<Rightarrow> v\<lparr>c_metadata := md\<rparr>))
                                   else (k, v)) w)
           | None \<Rightarrow>
               (case new_md of
                  None \<Rightarrow> (Inr (), w)
                | Some md \<Rightarrow> (Inr (), upd_col h (\<lambda>c. c\<lparr>c_metadata := md\<rparr>) w))))"

definition mem :: "(unit, string, mem_world) engine" where
  "mem =
     \<lparr>mkdir_parents = (\<lambda>p w. (Inr (), w)),
      resolve = (\<lambda>w p. p),
      persistent_client = (\<lambda>p w. (Inr (), w)),
      client_list_collections = (\<lambda>c w. (Inr (map fst w), w)),
      client_get_or_create_collection = (\<lambda>c. mem_get_or_create),
      client_get_collection = (\<lambda>c. mem_get_collection),
      client_create_collection = (\<lambda>c. mem_create),
      client_delete_collection = (\<lambda>c. mem_delete_collection),
      col_get = mem_get,
      col_add = mem_add,
      col_update = mem_update,
      col_delete = mem_delete,
      col_modify = mem_modify\<rparr>"

text \<open>The reference engine with a database directory that cannot be opened.\<close>

definition mem_unavailable :: "(unit, string, mem_world) engine" where
  "mem_unavailable = mem\<lparr>persistent_client := (\<lambda>p w. (Inl (EngineError ''unavailable''), w))\<rparr>"

section \<open>What the store asks of the engine's collection registry\<close>

text \<open>The names the engine lists in a state of the world (none when listing fails).\<close>

definition listed :: "('c, 'h, 'w) engine \<Rightarrow> 'c \<Rightarrow> 'w \<Rightarrow> string set" where
  "listed E c w = (case client_list_collections E c w of (Inr ns, w') \<Rightarrow> set ns | (Inl e, w') \<Rightarrow> {})"

text \<open>
  The contract of a working registry: listing the collections succeeds and leaves the
  world as it is, and after a successful get-or-create the names listed are those
  listed before together with the name asked for.
\<close>

definition registry_contract :: "('c, 'h, 'w) engine \<Rightarrow> bool" where
  "registry_contract E \<longleftrightarrow>
     (\<forall>c w. \<exists>ns. client_list_collections E c w = (Inr ns, w)) \<and>
     (\<forall>c n md w h w'. client_get_or_create_collection E c n md w = (Inr h, w')
        \<longrightarrow> listed E c w' = insert n (listed E c w))"

section \<open>Properties of the path classifier\<close>


lemma find_append_cases:
  "find P (xs @ ys) = (case find P xs of None \<Rightarrow> find P ys | Some x \<Rightarrow> Some x)"
  by (induction xs) auto

lemma collection_dirs_loop_find:
  "collection_dirs_loop fp rel n m ds =
     map_option fst (find (\<lambda>(n, d, pat, t). startswith (str_path rel) d \<and> path_match fp pat)
        (map (\<lambda>d. (n, d, file_pattern m, type_tag m)) ds))"
  by (induction ds) auto

lemma collection_items_loop_find:
  "collection_items_loop fp rel tbl =
     map_option fst (find (\<lambda>(n, d, pat, t). startswith (str_path rel) d \<and> path_match fp pat)
        (routing_rows tbl))"
proof (induction tbl)
  case Nil
  show ?case by (simp add: routing_rows_def)
next
  case (Cons a tbl)
  obtain n m where a: "a = (n, m)" by (cases a)
  have rows: "routing_rows ((n, m) # tbl) =
      map (\<lambda>d. (n, d, file_pattern m, type_tag m)) (directories m) @ routing_rows tbl"
    by (simp add: routing_rows_def)
  show ?case
    using Cons.IH
    by (simp add: a rows find_append_cases collection_dirs_loop_find split: option.splits)
qed

lemma type_dirs_loop_find:
  "type_dirs_loop fp rel n m ds =
     map_option (\<lambda>(n, d, pat, t). t) (find (\<lambda>(n, d, pat, t). startswith (str_path rel) d \<and> path_match fp pat)
        (map (\<lambda>d. (n, d, file_pattern m, type_tag m)) ds))"
  by (induction ds) auto

lemma type_items_loop_find:
  "type_items_loop fp rel tbl =
     map_option (\<lambda>(n, d, pat, t). t) (find (\<lambda>(n, d, pat, t). startswith (str_path rel) d \<and> path_match fp pat)
        (routing_rows tbl))"
proof (induction tbl)
  case Nil
  show ?case by (simp add: routing_rows_def)
next
  case (Cons a tbl)
  obtain n m where a: "a = (n, m)" by (cases a)
  have rows: "routing_rows ((n, m) # tbl) =
      map (\<lambda>d. (n, d, file_pattern m, type_tag m)) (directories m) @ routing_rows tbl"
    by (simp add: routing_rows_def)
  show ?case
    using Cons.IH
    by (simp add: a rows find_append_cases type_dirs_loop_find split: option.splits)
qed

lemma routing_rows_table:
  "routing_rows COLLECTION_MAPPINGS =
    [(''business-and-architecture'', ''docs/adrs'', ''*.md'', ''adr''),
     (''business-and-architecture'', ''docs/business'', ''*.md'', ''adr''),
     (''features'', ''docs/features'', ''*.feature'', ''feature''),
     (''tech-specs'', ''docs/ts4'', ''*.ts4'', ''ts4''),
     (''uisi'', ''docs/ui-intent'', ''*.yaml'', ''ui-intent'')]"
  by (simp add: routing_rows_def COLLECTION_MAPPINGS_def)










text \<open>
  Claim C5, as stated, fails. For \<^verbatim>\<open>/q/x.md\<close> and root \<^verbatim>\<open>/p\<close> both classifier
  operations end with the \<^verbatim>\<open>ValueError\<close> of \<^verbatim>\<open>relative_to\<close>, not with a
  \<open>PathOutsideRootError\<close>. And \<^verbatim>\<open>/p/../etc/passwd\<close>, which is written through the root
  but names a file outside it, raises nothing: both operations return absence.
\<close>

theorem classifier_outside_root_counterexample:
  "get_collection_for_file (Path True [''q'', ''x.md'']) (Path True [''p'']) = Inl ValueError
   \<and> get_collection_for_file (Path True [''q'', ''x.md'']) (Path True [''p''])
        \<noteq> Inl PathOutsideRootError
   \<and> get_file_type (Path True [''q'', ''x.md'']) (Path True [''p'']) = Inl ValueError
   \<and> get_file_type (Path True [''q'', ''x.md'']) (Path True [''p''])
        \<noteq> Inl PathOutsideRootError
   \<and> get_collection_for_file (Path True [''p'', ''..'', ''etc'', ''passwd''])
        (Path True [''p'']) = Inr None
   \<and> get_file_type (Path True [''p'', ''..'', ''etc'', ''passwd'']) (Path True [''p''])
        = Inr None"
  by (simp add: get_collection_for_file_def get_file_type_def relative_to_def
      COLLECTION_MAPPINGS_def startswith_def str_path_def path_match_def)

text \<open>
  Claim C5, amended. The classifier's test of the root is the one \<^verbatim>\<open>Path.relative_to\<close>
  makes, on the written components alone. When the root's components are not the
  leading components of the file path (or one path is absolute and the other is not),
  both \<open>get_collection_for_file\<close> and \<open>get_file_type\<close> return no result and fail with
  that \<^verbatim>\<open>ValueError\<close>. When they are, both return a result and raise nothing, also
  for a path that leaves the root again through \<^verbatim>\<open>..\<close> components:
  \<^verbatim>\<open>/p/docs/adrs/../../../q/x.md\<close> is classified \<^verbatim>\<open>business-and-architecture\<close> with
  type \<^verbatim>\<open>adr\<close>.
\<close>

theorem classifier_outside_root_ValueError:
  "(\<not> (anchored file_path = anchored project_root
         \<and> prefix (parts project_root) (parts file_path))
      \<longrightarrow> get_collection_for_file file_path project_root = Inl ValueError
        \<and> get_file_type file_path project_root = Inl ValueError)
   \<and> (anchored file_path = anchored project_root
         \<and> prefix (parts project_root) (parts file_path)
      \<longrightarrow> (\<exists>r. get_collection_for_file file_path project_root = Inr r)
        \<and> (\<exists>t. get_file_type file_path project_root = Inr t))
   \<and> get_collection_for_file
        (Path True [''p'', ''docs'', ''adrs'', ''..'', ''..'', ''..'', ''q'', ''x.md''])
        (Path True [''p'']) = Inr (Some ''business-and-architecture'')
   \<and> get_file_type
        (Path True [''p'', ''docs'', ''adrs'', ''..'', ''..'', ''..'', ''q'', ''x.md''])
        (Path True [''p'']) = Inr (Some ''adr'')"
proof -
  have outside: "get_collection_for_file file_path project_root = Inl ValueError
        \<and> get_file_type file_path project_root = Inl ValueError"
    if "\<not> (anchored file_path = anchored project_root
         \<and> prefix (parts project_root) (parts file_path))"
    using that by (simp add: get_collection_for_file_def get_file_type_def relative_to_def)
  have inside: "(\<exists>r. get_collection_for_file file_path project_root = Inr r)
        \<and> (\<exists>t. get_file_type file_path project_root = Inr t)"
    if "anchored file_path = anchored project_root
         \<and> prefix (parts project_root) (parts file_path)"
    using that by (simp add: get_collection_for_file_def get_file_type_def relative_to_def)
  have dots: "get_collection_for_file
        (Path True [''p'', ''docs'', ''adrs'', ''..'', ''..'', ''..'', ''q'', ''x.md''])
        (Path True [''p'']) = Inr (Some ''business-and-architecture'')"
    "get_file_type
        (Path True [''p'', ''docs'', ''adrs'', ''..'', ''..'', ''..'', ''q'', ''x.md''])
        (Path True [''p'']) = Inr (Some ''adr'')"
    by (simp_all add: get_collection_for_file_def get_file_type_def relative_to_def
        COLLECTION_MAPPINGS_def startswith_def str_path_def path_match_def)
  from outside inside dots show ?thesis by blast
qed

text \<open>
  The amended claim at \<^verbatim>\<open>/q/x.md\<close> with root \<^verbatim>\<open>/p\<close>, where the test fails, and at
  \<^verbatim>\<open>/p/../etc/passwd\<close>, where it passes.
\<close>

theorem classifier_outside_root_ValueError_witness:
  "\<not> (anchored (Path True [''q'', ''x.md'']) = anchored (Path True [''p''])
        \<and> prefix (parts (Path True [''p''])) (parts (Path True [''q'', ''x.md''])))
   \<and> get_collection_for_file (Path True [''q'', ''x.md'']) (Path True [''p'']) = Inl ValueError
   \<and> get_file_type (Path True [''q'', ''x.md'']) (Path True [''p'']) = Inl ValueError
   \<and> anchored (Path True [''p'', ''..'', ''etc'', ''passwd'']) = anchored (Path True [''p''])
   \<and> prefix (parts (Path True [''p''])) (parts (Path True [''p'', ''..'', ''etc'', ''passwd'']))
   \<and> (\<exists>r. get_collection_for_file (Path True [''p'', ''..'', ''etc'', ''passwd''])
              (Path True [''p'']) = Inr r)
   \<and> (\<exists>t. get_file_type (Path True [''p'', ''..'', ''etc'', ''passwd''])
              (Path True [''p'']) = Inr t)"
proof -
  have h: "\<not> (anchored (Path True [''q'', ''x.md'']) = anchored (Path True [''p''])
        \<and> prefix (parts (Path True [''p''])) (parts (Path True [''q'', ''x.md''])))"
    by simp
  have k: "anchored (Path True [''p'', ''..'', ''etc'', ''passwd'']) = anchored (Path True [''p''])
        \<and> prefix (parts (Path True [''p''])) (parts (Path True [''p'', ''..'', ''etc'', ''passwd'']))"
    by simp
  from classifier_outside_root_ValueError[of "Path True [''q'', ''x.md'']" "Path True [''p'']"] h
  have a: "get_collection_for_file (Path True [''q'', ''x.md'']) (Path True [''p'']) = Inl ValueError
      \<and> get_file_type (Path True [''q'', ''x.md'']) (Path True [''p'']) = Inl ValueError"
    by blast
  from classifier_outside_root_ValueError[of "Path True [''p'', ''..'', ''etc'', ''passwd'']"
      "Path True [''p'']"] k
  have b: "(\<exists>r. get_collection_for_file (Path True [''p'', ''..'', ''etc'', ''passwd''])
              (Path True [''p'']) = Inr r)
   \<and> (\<exists>t. get_file_type (Path True [''p'', ''..'', ''etc'', ''passwd''])
              (Path True [''p'']) = Inr t)"
    by blast
  from h k a b show ?thesis by blast
qed

lemma find_in_set: "find P xs = Some x \<Longrightarrow> x \<in> set xs"
  by (induction xs) (auto split: if_splits)

text \<open>
  Claim C8. \<open>get_file_type\<close> follows the same matching rule as
  \<open>get_collection_for_file\<close>: on every path it returns the type tag of a mapping of the
  routing table exactly when \<open>get_collection_for_file\<close> returns that mapping's
  collection name, and it returns absence exactly when \<open>get_collection_for_file\<close> does.
\<close>

theorem get_file_type_same_rule:
  "(get_file_type file_path project_root = Inr None
      \<longleftrightarrow> get_collection_for_file file_path project_root = Inr None)
   \<and> (\<forall>(n, m) \<in> set COLLECTION_MAPPINGS.
        get_file_type file_path project_root = Inr (Some (type_tag m))
          \<longleftrightarrow> get_collection_for_file file_path project_root = Inr (Some n))"
proof (cases "relative_to file_path project_root")
  case (Inl e)
  then show ?thesis
    by (simp add: get_file_type_def get_collection_for_file_def split: prod.splits)
next
  case (Inr rel)
  let ?r = "find (\<lambda>(n, d, pat, t). startswith (str_path rel) d \<and> path_match file_path pat)
              (routing_rows COLLECTION_MAPPINGS)"
  have c: "get_collection_for_file file_path project_root = Inr (map_option fst ?r)"
    by (simp add: get_collection_for_file_def Inr collection_items_loop_find)
  have t: "get_file_type file_path project_root = Inr (map_option (\<lambda>(n, d, pat, t). t) ?r)"
    by (simp add: get_file_type_def Inr type_items_loop_find)
  show ?thesis
  proof (cases ?r)
    case None
    then show ?thesis unfolding c t by (simp split: prod.splits)
  next
    case (Some row)
    from find_in_set[OF Some] have "row \<in> set (routing_rows COLLECTION_MAPPINGS)" .
    then show ?thesis
      unfolding c t Some routing_rows_table
      by (auto simp: COLLECTION_MAPPINGS_def)
  qed
qed

text \<open>The theorem at \<^verbatim>\<open>/p/docs/ts4/api.ts4\<close> and the mapping \<^verbatim>\<open>tech-specs\<close>.\<close>

theorem get_file_type_same_rule_witness:
  "get_collection_for_file (Path True [''p'', ''docs'', ''ts4'', ''api.ts4'']) (Path True [''p''])
      = Inr (Some ''tech-specs'')
   \<and> get_file_type (Path True [''p'', ''docs'', ''ts4'', ''api.ts4'']) (Path True [''p''])
      = Inr (Some ''ts4'')"
proof -
  have c: "get_collection_for_file (Path True [''p'', ''docs'', ''ts4'', ''api.ts4''])
      (Path True [''p'']) = Inr (Some ''tech-specs'')"
    by (simp add: get_collection_for_file_def relative_to_def COLLECTION_MAPPINGS_def
        startswith_def str_path_def path_match_def)
  have m: "(''tech-specs'', \<lparr>directories = [''docs/ts4''], file_pattern = ''*.ts4'',
          type_tag = ''ts4''\<rparr>) \<in> set COLLECTION_MAPPINGS"
    by (simp add: COLLECTION_MAPPINGS_def)
  from get_file_type_same_rule[of "Path True [''p'', ''docs'', ''ts4'', ''api.ts4'']" "Path True [''p'']"]
  have "\<forall>(n, m) \<in> set COLLECTION_MAPPINGS.
        get_file_type (Path True [''p'', ''docs'', ''ts4'', ''api.ts4'']) (Path True [''p'']) = Inr (Some (type_tag m))
          \<longleftrightarrow> get_collection_for_file (Path True [''p'', ''docs'', ''ts4'', ''api.ts4'']) (Path True [''p'']) = Inr (Some n)"
    by blast
  from bspec[OF this m] c show ?thesis by simp
qed


section \<open>Properties of the store\<close>


lemma then_do_Inr: "m s = (Inr a, s') \<Longrightarrow> then_do m f s = f a s'"
  by (simp add: then_do_def)

lemma then_do_Inl: "m s = (Inl e, s') \<Longrightarrow> then_do m f s = (Inl e, s')"
  by (simp add: then_do_def)

lemma on_world_apply: "m w = (r, w') \<Longrightarrow> on_world m (st, w) = (r, (st, w'))"
  by (simp add: on_world_def)

lemma log_call_apply: "m w = (r, w') \<Longrightarrow> log_call c m (w, l) = (r, (w', l @ [c]))"
  by (simp add: log_call_def)

lemma logged_simps:
  "mkdir_parents (logged E) p = log_call (Mkdir p) (mkdir_parents E p)"
  "resolve (logged E) (w, l) = resolve E w"
  "persistent_client (logged E) q = log_call (PersistentClient q) (persistent_client E q)"
  "client_list_collections (logged E) c = log_call (ListCollections c) (client_list_collections E c)"
  "client_get_or_create_collection (logged E) c n mdo =
     log_call (GetOrCreateCollection c n mdo) (client_get_or_create_collection E c n mdo)"
  "client_get_collection (logged E) c n = log_call (GetCollection c n) (client_get_collection E c n)"
  "client_create_collection (logged E) c n md =
     log_call (CreateCollection c n md) (client_create_collection E c n md)"
  "client_delete_collection (logged E) c n =
     log_call (DeleteCollection c n) (client_delete_collection E c n)"
  "col_get (logged E) h sel incl = log_call (ColGet h sel incl) (col_get E h sel incl)"
  "col_add (logged E) h ids docs metas = log_call (ColAdd h ids docs metas) (col_add E h ids docs metas)"
  "col_update (logged E) h kw = log_call (ColUpdate h kw) (col_update E h kw)"
  "col_delete (logged E) h ids = log_call (ColDelete h ids) (col_delete E h ids)"
  "col_modify (logged E) h no mdo = log_call (ColModify h no mdo) (col_modify E h no mdo)"
  by (simp_all add: logged_def)

lemma normalised_metadatas:
  "length metadatas \<noteq> length ids \<Longrightarrow>
   (let metadatas1 = py_or (Some metadatas) (replicate (length ids) []);
        metadatas2 = (if length metadatas1 \<noteq> length ids then replicate (length ids) []
                      else metadatas1)
    in f metadatas2) = f (replicate (length ids) [])"
  by (simp add: py_or_def Let_def)

text \<open>
  Claim C3. When \<open>add_documents\<close> is given a metadata list whose length differs from
  that of the id list, the list is dropped and the engine's add is called with one
  empty metadata object per id. The mismatch raises nothing: once the client and the
  collection handle are there, the only calls are the lookup of the collection and
  that add, the outcome is an exception only if the engine's add raised one, and
  otherwise it is the length of the id list.
\<close>

theorem add_documents_mismatched_metadatas:
  assumes "length metadatas \<noteq> length ids"
    and "client_or_raise (logged E) s = (Inr client, (st1, (w1, l1)))"
    and "client_get_collection E client collection_name w1 = (Inr col, w2)"
    and "col_add E col ids documents (replicate (length ids) []) w2 = (r, w3)"
  shows "add_documents (logged E) collection_name ids documents (Some metadatas) s =
           ((case r of Inl e \<Rightarrow> Inl e | Inr u \<Rightarrow> Inr (int (length ids))),
            (st1, (w3, l1 @ [GetCollection client collection_name,
                             ColAdd col ids documents (replicate (length ids) [])])))"
proof -
  have g: "on_world (client_get_collection (logged E) client collection_name) (st1, (w1, l1))
      = (Inr col, (st1, (w2, l1 @ [GetCollection client collection_name])))"
    using assms(3) by (simp add: logged_simps on_world_def log_call_def)
  have a: "on_world (col_add (logged E) col ids documents (replicate (length ids) []))
        (st1, (w2, l1 @ [GetCollection client collection_name]))
      = (r, (st1, (w3, l1 @ [GetCollection client collection_name,
                             ColAdd col ids documents (replicate (length ids) [])])))"
    using assms(4) by (simp add: logged_simps on_world_def log_call_def)
  show ?thesis
    unfolding add_documents_def normalised_metadatas[OF assms(1)]
    using assms(2) g a by (cases r) (simp_all add: then_do_def ret_def)
qed


lemmas mem_defs = mem_def mem_get_or_create_def mem_get_collection_def mem_create_def
  mem_delete_collection_def mem_get_def mem_add_def mem_update_def mem_delete_def
  mem_modify_def upd_col_def py_or_def

lemmas prog_defs = then_do_def ret_def raise_def try_except_def on_world_def log_call_def

text \<open>
  The theorem on the reference engine: two ids, one metadata object supplied; both
  documents are stored with empty metadata and the count is 2.
\<close>

theorem add_documents_mismatched_metadatas_witness:
  "length [[(''k'', ''v'')]] \<noteq> length [''x'', ''y'']
   \<and> add_documents (logged mem) ''e'' [''x'', ''y''] [''dx'', ''dy''] (Some [[(''k'', ''v'')]])
        (\<lparr>store_root = Path True [''p''], store_client = Some ()\<rparr>,
         ([(''e'', \<lparr>c_metadata = [], c_docs = []\<rparr>)], []))
     = (Inr 2,
        (\<lparr>store_root = Path True [''p''], store_client = Some ()\<rparr>,
         ([(''e'', \<lparr>c_metadata = [], c_docs = [(''x'', ''dx'', []), (''y'', ''dy'', [])]\<rparr>)],
          [GetCollection () ''e'', ColAdd ''e'' [''x'', ''y''] [''dx'', ''dy''] [[], []]])))"
proof -
  have h1: "length [[(''k'', ''v'')]] \<noteq> length [''x'', ''y'']" by simp
  have h2: "client_or_raise (logged mem)
        (\<lparr>store_root = Path True [''p''], store_client = Some ()\<rparr>,
         ([(''e'', \<lparr>c_metadata = [], c_docs = []\<rparr>)], []))
      = (Inr (), (\<lparr>store_root = Path True [''p''], store_client = Some ()\<rparr>,
         ([(''e'', \<lparr>c_metadata = [], c_docs = []\<rparr>)], [])))"
    by (simp add: client_or_raise_def)
  have h3: "client_get_collection mem () ''e'' [(''e'', \<lparr>c_metadata = [], c_docs = []\<rparr>)]
      = (Inr ''e'', [(''e'', \<lparr>c_metadata = [], c_docs = []\<rparr>)])"
    by (simp add: mem_defs)
  have h4: "col_add mem ''e'' [''x'', ''y''] [''dx'', ''dy''] (replicate (length [''x'', ''y'']) [])
        [(''e'', \<lparr>c_metadata = [], c_docs = []\<rparr>)]
      = (Inr (), [(''e'', \<lparr>c_metadata = [], c_docs = [(''x'', ''dx'', []), (''y'', ''dy'', [])]\<rparr>)])"
    by (simp add: mem_defs numeral_2_eq_2)
  from add_documents_mismatched_metadatas[OF h1 h2 h3 h4] h1 show ?thesis
    by (simp add: numeral_2_eq_2)
qed




text \<open>
  Claim C9. When \<open>modify_collection\<close> is given both a new name and new metadata, the
  engine calls after the lookup of the collection are the metadata change and then the
  rename, in that order; the rename acts on the world the metadata change left, and is
  not made at all when the metadata change raised.
\<close>

theorem modify_collection_metadata_before_name:
  assumes "client_or_raise (logged E) s = (Inr client, (st1, (w1, l1)))"
    and "client_get_collection E client collection_name w1 = (Inr col, w2)"
    and "col_modify E col None (Some new_metadata) w2 = (r1, w3)"
    and "col_modify E col (Some new_name) None w3 = (r2, w4)"
  shows "modify_collection (logged E) collection_name (Some new_name) (Some new_metadata) s =
           (case r1 of
              Inl e \<Rightarrow>
                (Inl e, (st1, (w3, l1 @ [GetCollection client collection_name,
                                         ColModify col None (Some new_metadata)])))
            | Inr u \<Rightarrow>
                (r2, (st1, (w4, l1 @ [GetCollection client collection_name,
                                      ColModify col None (Some new_metadata),
                                      ColModify col (Some new_name) None]))))"
proof -
  have g: "on_world (client_get_collection (logged E) client collection_name) (st1, (w1, l1))
      = (Inr col, (st1, (w2, l1 @ [GetCollection client collection_name])))"
    using assms(2) by (simp add: logged_simps on_world_def log_call_def)
  have a: "on_world (col_modify (logged E) col None (Some new_metadata))
        (st1, (w2, l1 @ [GetCollection client collection_name]))
      = (r1, (st1, (w3, l1 @ [GetCollection client collection_name,
                              ColModify col None (Some new_metadata)])))"
    using assms(3) by (simp add: logged_simps on_world_def log_call_def)
  have b: "on_world (col_modify (logged E) col (Some new_name) None)
        (st1, (w3, l1 @ [GetCollection client collection_name,
                         ColModify col None (Some new_metadata)]))
      = (r2, (st1, (w4, l1 @ [GetCollection client collection_name,
                              ColModify col None (Some new_metadata),
                              ColModify col (Some new_name) None])))"
    using assms(4) by (simp add: logged_simps on_world_def log_call_def)
  show ?thesis
    unfolding modify_collection_def
    using assms(1) g a b by (cases r1) (simp_all add: then_do_def ret_def)
qed

text \<open>The theorem on the reference engine, renaming \<^verbatim>\<open>c\<close> to \<^verbatim>\<open>d\<close>.\<close>

theorem modify_collection_metadata_before_name_witness:
  "modify_collection (logged mem) ''c'' (Some ''d'') (Some [(''x'', ''y'')])
      (\<lparr>store_root = Path True [''p''], store_client = Some ()\<rparr>,
       ([(''c'', \<lparr>c_metadata = [], c_docs = []\<rparr>)], []))
    = (Inr (),
       (\<lparr>store_root = Path True [''p''], store_client = Some ()\<rparr>,
        ([(''d'', \<lparr>c_metadata = [(''x'', ''y'')], c_docs = []\<rparr>)],
         [GetCollection () ''c'', ColModify ''c'' None (Some [(''x'', ''y'')]),
          ColModify ''c'' (Some ''d'') None])))"
proof -
  have h1: "client_or_raise (logged mem)
        (\<lparr>store_root = Path True [''p''], store_client = Some ()\<rparr>,
         ([(''c'', \<lparr>c_metadata = [], c_docs = []\<rparr>)], []))
      = (Inr (), (\<lparr>store_root = Path True [''p''], store_client = Some ()\<rparr>,
         ([(''c'', \<lparr>c_metadata = [], c_docs = []\<rparr>)], [])))"
    by (simp add: client_or_raise_def)
  have h2: "client_get_collection mem () ''c'' [(''c'', \<lparr>c_metadata = [], c_docs = []\<rparr>)]
      = (Inr ''c'', [(''c'', \<lparr>c_metadata = [], c_docs = []\<rparr>)])"
    by (simp add: mem_defs)
  have h3: "col_modify mem ''c'' None (Some [(''x'', ''y'')])
        [(''c'', \<lparr>c_metadata = [], c_docs = []\<rparr>)]
      = (Inr (), [(''c'', \<lparr>c_metadata = [(''x'', ''y'')], c_docs = []\<rparr>)])"
    by (simp add: mem_defs)
  have h4: "col_modify mem ''c'' (Some ''d'') None
        [(''c'', \<lparr>c_metadata = [(''x'', ''y'')], c_docs = []\<rparr>)]
      = (Inr (), [(''d'', \<lparr>c_metadata = [(''x'', ''y'')], c_docs = []\<rparr>)])"
    by (simp add: mem_defs)
  from modify_collection_metadata_before_name[OF h1 h2 h3 h4] show ?thesis by simp
qed

text \<open>
  Claim C10. \<open>update_documents\<close> checks nothing about which optional fields are
  there: the keyword arguments of the one update call are \<^verbatim>\<open>ids\<close>, then
  \<^verbatim>\<open>documents\<close> if supplied, then \<^verbatim>\<open>metadatas\<close> if supplied (only \<^verbatim>\<open>ids\<close> when both are
  absent), and when the engine's update does not raise the count returned is the
  length of the id list.
\<close>

theorem update_documents_forwards_supplied_fields:
  assumes "client_or_raise (logged E) s = (Inr client, (st1, (w1, l1)))"
    and "client_get_collection E client collection_name w1 = (Inr col, w2)"
    and "kw = (''ids'', Strs ids)
              # (case documents of None \<Rightarrow> [] | Some d \<Rightarrow> [(''documents'', Strs d)])
              @ (case metadatas of None \<Rightarrow> [] | Some m \<Rightarrow> [(''metadatas'', Metas m)])"
    and "col_update E col kw w2 = (r, w3)"
  shows "update_documents (logged E) collection_name ids documents metadatas s =
           ((case r of Inl e \<Rightarrow> Inl e | Inr u \<Rightarrow> Inr (int (length ids))),
            (st1, (w3, l1 @ [GetCollection client collection_name, ColUpdate col kw])))"
proof -
  have g: "on_world (client_get_collection (logged E) client collection_name) (st1, (w1, l1))
      = (Inr col, (st1, (w2, l1 @ [GetCollection client collection_name])))"
    using assms(2) by (simp add: logged_simps on_world_def log_call_def)
  have a: "on_world (col_update (logged E) col kw)
        (st1, (w2, l1 @ [GetCollection client collection_name]))
      = (r, (st1, (w3, l1 @ [GetCollection client collection_name, ColUpdate col kw])))"
    using assms(4) by (simp add: logged_simps on_world_def log_call_def)
  have k: "(let kwargs0 = [(''ids'', Strs ids)];
          kwargs1 = (case documents of None \<Rightarrow> kwargs0
                     | Some d \<Rightarrow> kwargs0 @ [(''documents'', Strs d)]);
          kwargs2 = (case metadatas of None \<Rightarrow> kwargs1
                     | Some m \<Rightarrow> kwargs1 @ [(''metadatas'', Metas m)])
      in f kwargs2) = f kw" for f :: "kwargs \<Rightarrow> 'z"
    unfolding assms(3) by (simp add: Let_def split: option.splits)
  show ?thesis
    unfolding update_documents_def k
    using assms(1) g a by (cases r) (simp_all add: then_do_def ret_def)
qed

text \<open>
  The theorem on the reference engine with neither documents nor metadatas: the update
  call carries \<^verbatim>\<open>ids\<close> alone and the count returned is 1.
\<close>

theorem update_documents_forwards_supplied_fields_witness:
  "update_documents (logged mem) ''c'' [''a''] None None
      (\<lparr>store_root = Path True [''p''], store_client = Some ()\<rparr>,
       ([(''c'', \<lparr>c_metadata = [], c_docs = [(''a'', ''doc a'', [])]\<rparr>)], []))
    = (Inr 1,
       (\<lparr>store_root = Path True [''p''], store_client = Some ()\<rparr>,
        ([(''c'', \<lparr>c_metadata = [], c_docs = [(''a'', ''doc a'', [])]\<rparr>)],
         [GetCollection () ''c'', ColUpdate ''c'' [(''ids'', Strs [''a''])]])))"
proof -
  have h1: "client_or_raise (logged mem)
        (\<lparr>store_root = Path True [''p''], store_client = Some ()\<rparr>,
         ([(''c'', \<lparr>c_metadata = [], c_docs = [(''a'', ''doc a'', [])]\<rparr>)], []))
      = (Inr (), (\<lparr>store_root = Path True [''p''], store_client = Some ()\<rparr>,
         ([(''c'', \<lparr>c_metadata = [], c_docs = [(''a'', ''doc a'', [])]\<rparr>)], [])))"
    by (simp add: client_or_raise_def)
  have h2: "client_get_collection mem () ''c''
        [(''c'', \<lparr>c_metadata = [], c_docs = [(''a'', ''doc a'', [])]\<rparr>)]
      = (Inr ''c'', [(''c'', \<lparr>c_metadata = [], c_docs = [(''a'', ''doc a'', [])]\<rparr>)])"
    by (simp add: mem_defs)
  have h3: "[(''ids'', Strs [''a''])] = (''ids'', Strs [''a''])
              # (case None :: string list option of None \<Rightarrow> [] | Some d \<Rightarrow> [(''documents'', Strs d)])
              @ (case None :: metadata list option of None \<Rightarrow> [] | Some m \<Rightarrow> [(''metadatas'', Metas m)])"
    by simp
  have h4: "col_update mem ''c'' [(''ids'', Strs [''a''])]
        [(''c'', \<lparr>c_metadata = [], c_docs = [(''a'', ''doc a'', [])]\<rparr>)]
      = (Inr (), [(''c'', \<lparr>c_metadata = [], c_docs = [(''a'', ''doc a'', [])]\<rparr>)])"
    by (simp add: mem_defs)
  from update_documents_forwards_supplied_fields[OF h1 h2 h3 h4] show ?thesis by simp
qed


text \<open>
  Claim C6. \<open>document_exists\<close> never raises: on every engine, for every collection
  name, document id and state it returns a truth value. The value is true exactly when
  the client could be obtained, the collection was found, and the engine's lookup of the
  id returned a non-empty id list; every failure on the way (no client, no such
  collection, a failed lookup, a result without ids) gives false.
\<close>

theorem document_exists_never_raises:
  "\<exists>b s'. document_exists E collection_name document_id s = (Inr b, s')
     \<and> (b \<longleftrightarrow> (\<exists>client s1 col w2 existing w3 ids.
            client_or_raise E s = (Inr client, s1)
          \<and> client_get_collection E client collection_name (snd s1) = (Inr col, w2)
          \<and> col_get E col (Some [document_id]) None w2 = (Inr existing, w3)
          \<and> r_ids existing = Some ids \<and> ids \<noteq> []))"
proof -
  obtain r1 st1 w1 where c1: "client_or_raise E s = (r1, (st1, w1))"
    by (cases "client_or_raise E s") auto
  show ?thesis
  proof (cases r1)
    case (Inl e)
    with c1 show ?thesis
      by (auto simp: document_exists_def prog_defs)
  next
    case (Inr client)
    note c = c1[unfolded Inr]
    obtain r2 w2 where g: "client_get_collection E client collection_name w1 = (r2, w2)"
      by (cases "client_get_collection E client collection_name w1")
    show ?thesis
    proof (cases r2)
      case (Inl e)
      with c g show ?thesis
        by (auto simp: document_exists_def prog_defs)
    next
      case col: (Inr col)
      obtain r3 w3 where q: "col_get E col (Some [document_id]) None w2 = (r3, w3)"
        by (cases "col_get E col (Some [document_id]) None w2")
      show ?thesis
      proof (cases r3)
        case (Inl e)
        with c g col q show ?thesis
          by (auto simp: document_exists_def prog_defs)
      next
        case ex: (Inr existing)
        with c g col q show ?thesis
          by (cases "r_ids existing") (auto simp: document_exists_def prog_defs)
      qed
    qed
  qed
qed

text \<open>
  On the reference engine: the database cannot be opened, the collection is absent, the
  id is absent, the id is present.
\<close>

lemma document_exists_examples:
  "fst (document_exists mem_unavailable ''c'' ''a''
      (\<lparr>store_root = Path True [''p''], store_client = None\<rparr>,
       [(''c'', \<lparr>c_metadata = [], c_docs = [(''a'', ''doc a'', [])]\<rparr>)])) = Inr False"
  "fst (document_exists mem ''zz'' ''a''
      (\<lparr>store_root = Path True [''p''], store_client = None\<rparr>,
       [(''c'', \<lparr>c_metadata = [], c_docs = [(''a'', ''doc a'', [])]\<rparr>)])) = Inr False"
  "fst (document_exists mem ''c'' ''b''
      (\<lparr>store_root = Path True [''p''], store_client = None\<rparr>,
       [(''c'', \<lparr>c_metadata = [], c_docs = [(''a'', ''doc a'', [])]\<rparr>)])) = Inr False"
  "fst (document_exists mem ''c'' ''a''
      (\<lparr>store_root = Path True [''p''], store_client = None\<rparr>,
       [(''c'', \<lparr>c_metadata = [], c_docs = [(''a'', ''doc a'', [])]\<rparr>)])) = Inr True"
  by (simp_all add: document_exists_def client_or_raise_def get_chromadb_client_def
      mem_unavailable_def prog_defs mem_defs)


lemma client_or_raise_cached:
  "client_or_raise E (st, w) = (Inr client, (st1, w1)) \<Longrightarrow> store_client st1 = Some client"
  by (auto simp: client_or_raise_def split: option.splits prod.splits sum.splits)

lemma client_or_raise_again:
  "store_client st = Some client \<Longrightarrow> client_or_raise E (st, w) = (Inr client, (st, w))"
  by (simp add: client_or_raise_def)

lemma contract_list:
  assumes "registry_contract E"
  shows "client_list_collections E c w = (Inr ns, w') \<Longrightarrow> w' = w \<and> listed E c w = set ns"
    and "\<exists>ns. client_list_collections E c w = (Inr ns, w)"
proof -
  from assms obtain ns0 where l: "client_list_collections E c w = (Inr ns0, w)"
    unfolding registry_contract_def by blast
  then show "\<exists>ns. client_list_collections E c w = (Inr ns, w)" by blast
  assume "client_list_collections E c w = (Inr ns, w')"
  with l show "w' = w \<and> listed E c w = set ns" by (simp add: listed_def)
qed

lemma create_missing_listed:
  assumes "registry_contract E"
  shows "create_missing E c names w = (Inr u, w') \<Longrightarrow> listed E c w' = listed E c w \<union> set names"
proof (induction names arbitrary: w)
  case Nil
  then show ?case by simp
next
  case (Cons n names)
  obtain r wa where g: "client_get_or_create_collection E c n None w = (r, wa)"
    by (cases "client_get_or_create_collection E c n None w")
  with Cons.prems obtain h where r: "r = Inr h" and rest: "create_missing E c names wa = (Inr u, w')"
    by (cases r) auto
  from assms g r have "listed E c wa = insert n (listed E c w)"
    unfolding registry_contract_def by blast
  with Cons.IH[OF rest] show ?case by auto
qed

text \<open>
  Claim C7. On an engine whose registry keeps its contract, a call of
  \<open>ensure_collections\<close> that completes returns exactly the required names that were
  not listed before it, in the order of the required list; afterwards the names listed
  are those listed before together with the missing ones, so every required collection
  exists; and a second call made right after it returns the empty list and changes
  nothing.
\<close>

theorem ensure_collections_idempotent:
  assumes "registry_contract E"
    and "ensure_collections E s = (Inr missing, s')"
  shows "\<exists>client st1 w1. client_or_raise E s = (Inr client, (st1, w1))
           \<and> missing = filter (\<lambda>n. n \<notin> listed E client w1) REQUIRED_COLLECTIONS
           \<and> listed E client (snd s') = listed E client w1 \<union> set missing
           \<and> set REQUIRED_COLLECTIONS \<subseteq> listed E client (snd s')
           \<and> ensure_collections E s' = (Inr [], s')"
proof -
  obtain st w where s: "s = (st, w)" by (cases s)
  obtain r1 st1 w1 where c1: "client_or_raise E s = (r1, (st1, w1))"
    by (cases "client_or_raise E s") auto
  from assms(2) c1 obtain client where r1: "r1 = Inr client"
    by (cases r1) (auto simp: ensure_collections_def then_do_def)
  note c = c1[unfolded r1]
  from contract_list(2)[OF assms(1)] obtain ns where
    l1: "client_list_collections E client w1 = (Inr ns, w1)" by blast
  from contract_list(1)[OF assms(1) l1] have ns: "listed E client w1 = set ns" by simp
  define miss where "miss = filter (\<lambda>col. col \<notin> set ns) REQUIRED_COLLECTIONS"
  have v: "on_world (verify_collections E client) (st1, w1) = (Inr miss, (st1, w1))"
    by (simp add: verify_collections_def on_world_def then_do_def ret_def l1 miss_def)
  obtain r3 w2 where cm: "create_missing E client miss w1 = (r3, w2)"
    by (cases "create_missing E client miss w1")
  from assms(2) c v cm have r3: "r3 = Inr ()" and m: "missing = miss" and s': "s' = (st1, w2)"
    by (cases r3; simp add: ensure_collections_def then_do_def ret_def on_world_def)+
  from create_missing_listed[OF assms(1) cm[unfolded r3]]
  have after: "listed E client w2 = listed E client w1 \<union> set miss" .
  have req: "set REQUIRED_COLLECTIONS \<subseteq> listed E client w2"
    unfolding after ns miss_def by auto
  from contract_list(2)[OF assms(1)] obtain ns2 where
    l2: "client_list_collections E client w2 = (Inr ns2, w2)" by blast
  from contract_list(1)[OF assms(1) l2] have ns2: "listed E client w2 = set ns2" by simp
  have none: "filter (\<lambda>col. col \<notin> set ns2) REQUIRED_COLLECTIONS = []"
    using req unfolding ns2 by (auto simp: filter_empty_conv)
  have cached: "store_client st1 = Some client"
    by (rule client_or_raise_cached[OF c[unfolded s]])
  have again: "ensure_collections E (st1, w2) = (Inr [], (st1, w2))"
    by (simp add: ensure_collections_def then_do_def ret_def on_world_def
        client_or_raise_again[OF cached] verify_collections_def l2 none)
  from c m ns after req again show ?thesis
    unfolding s' miss_def by auto
qed

lemma mem_registry_contract: "registry_contract mem"
  unfolding registry_contract_def
proof (intro conjI allI impI)
  fix c :: unit and w :: mem_world
  show "\<exists>ns. client_list_collections mem c w = (Inr ns, w)"
    by (simp add: mem_def)
next
  fix c :: unit and n md and w :: mem_world and h w'
  assume "client_get_or_create_collection mem c n md w = (Inr h, w')"
  then show "listed mem c w' = insert n (listed mem c w)"
    by (auto simp: mem_def mem_get_or_create_def listed_def split: if_splits)
qed

text \<open>
  The theorem on the reference engine, which keeps the contract: with only
  \<^verbatim>\<open>features\<close> present the first call creates and returns the other three names, and
  the second call returns the empty list.
\<close>

theorem ensure_collections_idempotent_witness:
  "registry_contract mem
   \<and> ensure_collections mem
        (\<lparr>store_root = Path True [''p''], store_client = None\<rparr>,
         [(''features'', \<lparr>c_metadata = [], c_docs = []\<rparr>)])
     = (Inr [''business-and-architecture'', ''tech-specs'', ''uisi''],
        (\<lparr>store_root = Path True [''p''], store_client = Some ()\<rparr>,
         [(''features'', \<lparr>c_metadata = [], c_docs = []\<rparr>),
          (''business-and-architecture'', \<lparr>c_metadata = [], c_docs = []\<rparr>),
          (''tech-specs'', \<lparr>c_metadata = [], c_docs = []\<rparr>),
          (''uisi'', \<lparr>c_metadata = [], c_docs = []\<rparr>)]))
   \<and> ensure_collections mem
        (\<lparr>store_root = Path True [''p''], store_client = Some ()\<rparr>,
         [(''features'', \<lparr>c_metadata = [], c_docs = []\<rparr>),
          (''business-and-architecture'', \<lparr>c_metadata = [], c_docs = []\<rparr>),
          (''tech-specs'', \<lparr>c_metadata = [], c_docs = []\<rparr>),
          (''uisi'', \<lparr>c_metadata = [], c_docs = []\<rparr>)])
     = (Inr [],
        (\<lparr>store_root = Path True [''p''], store_client = Some ()\<rparr>,
         [(''features'', \<lparr>c_metadata = [], c_docs = []\<rparr>),
          (''business-and-architecture'', \<lparr>c_metadata = [], c_docs = []\<rparr>),
          (''tech-specs'', \<lparr>c_metadata = [], c_docs = []\<rparr>),
          (''uisi'', \<lparr>c_metadata = [], c_docs = []\<rparr>)]))"
proof -
  have h2: "ensure_collections mem
        (\<lparr>store_root = Path True [''p''], store_client = None\<rparr>,
         [(''features'', \<lparr>c_metadata = [], c_docs = []\<rparr>)])
     = (Inr [''business-and-architecture'', ''tech-specs'', ''uisi''],
        (\<lparr>store_root = Path True [''p''], store_client = Some ()\<rparr>,
         [(''features'', \<lparr>c_metadata = [], c_docs = []\<rparr>),
          (''business-and-architecture'', \<lparr>c_metadata = [], c_docs = []\<rparr>),
          (''tech-specs'', \<lparr>c_metadata = [], c_docs = []\<rparr>),
          (''uisi'', \<lparr>c_metadata = [], c_docs = []\<rparr>)]))"
    by (simp add: ensure_collections_def client_or_raise_def get_chromadb_client_def
        verify_collections_def REQUIRED_COLLECTIONS_def COLLECTION_MAPPINGS_def
        prog_defs mem_defs)
  from ensure_collections_idempotent[OF mem_registry_contract h2]
  have "ensure_collections mem
        (\<lparr>store_root = Path True [''p''], store_client = Some ()\<rparr>,
         [(''features'', \<lparr>c_metadata = [], c_docs = []\<rparr>),
          (''business-and-architecture'', \<lparr>c_metadata = [], c_docs = []\<rparr>),
          (''tech-specs'', \<lparr>c_metadata = [], c_docs = []\<rparr>),
          (''uisi'', \<lparr>c_metadata = [], c_docs = []\<rparr>)])
     = (Inr [],
        (\<lparr>store_root = Path True [''p''], store_client = Some ()\<rparr>,
         [(''features'', \<lparr>c_metadata = [], c_docs = []\<rparr>),
          (''business-and-architecture'', \<lparr>c_metadata = [], c_docs = []\<rparr>),
          (''tech-specs'', \<lparr>c_metadata = [], c_docs = []\<rparr>),
          (''uisi'', \<lparr>c_metadata = [], c_docs = []\<rparr>)]))"
    by blast
  with mem_registry_contract h2 show ?thesis by blast
qed

lemma filter_absent_key:
  "n \<notin> set (map fst w) \<Longrightarrow> filter (\<lambda>(k, v). k \<noteq> n) w = w"
  by (induction w) auto

lemma key_not_in_filter: "n \<notin> set (map fst (filter (\<lambda>(k, v). k \<noteq> n) w))"
  by (induction w) auto

lemma mem_delete_collection_world:
  "mem_delete_collection n w = (r, w') \<Longrightarrow> w' = filter (\<lambda>(k, v). k \<noteq> n) w"
  by (auto simp: mem_delete_collection_def filter_absent_key split: if_splits)

lemma upd_col_last:
  "n \<notin> set (map fst w) \<Longrightarrow> upd_col n f (w @ [(n, c)]) = w @ [(n, f c)]"
  by (induction w) (auto simp: upd_col_def)

lemma map_of_last:
  "n \<notin> set (map fst w) \<Longrightarrow> map_of (w @ [(n, c)]) n = Some c"
  by (induction w) auto

lemma zip_docs:
  "zip (map fst ds) (zip (map (\<lambda>(i, d, m). d) ds) (map (\<lambda>(i, d, m). m) ds)) = ds"
  by (induction ds) auto

text \<open>
  Claim C2. On the reference engine, \<open>fork_collection\<close> from a collection holding any
  number of documents succeeds and leaves under the new name a collection with the
  metadata given and exactly the ids, documents and metadatas of the source, in the
  same order; every other collection is untouched. This holds whether or not the new
  name was taken: a collection that occupied it is removed and replaced, and a failed
  delete of an absent one is swallowed. The calls made are the lookup, the read of the
  source, the delete, the create and, only when the source is not empty, one add.
\<close>

theorem fork_collection_copies:
  assumes "client_or_raise (logged mem) s = (Inr client, (st1, (w1, l1)))"
    and "map_of w1 collection_name = Some src"
    and "distinct (map fst (c_docs src))"
  shows "fork_collection (logged mem) collection_name new_collection_name metadata s =
     (Inr (),
      (st1,
       (filter (\<lambda>(k, v). k \<noteq> new_collection_name) w1
          @ [(new_collection_name,
              \<lparr>c_metadata = py_or metadata [], c_docs = c_docs src\<rparr>)],
        l1 @ [GetCollection client collection_name,
              ColGet collection_name None (Some [''documents'', ''metadatas'']),
              DeleteCollection client new_collection_name,
              CreateCollection client new_collection_name (py_or metadata [])]
           @ (if c_docs src = [] then []
              else [ColAdd new_collection_name (map fst (c_docs src))
                      (map (\<lambda>(i, d, m). d) (c_docs src))
                      (map (\<lambda>(i, d, m). m) (c_docs src))]))))"
proof -
  let ?new = new_collection_name
  let ?md = "py_or metadata []"
  let ?docs = "c_docs src"
  let ?w2 = "filter (\<lambda>(k, v). k \<noteq> ?new) w1"
  let ?w3 = "?w2 @ [(?new, \<lparr>c_metadata = ?md, c_docs = []\<rparr>)]"
  let ?data = "\<lparr>r_ids = Some (map fst ?docs),
                r_documents = Some (map (\<lambda>(i, d, m). d) ?docs),
                r_metadatas = Some (map (\<lambda>(i, d, m). m) ?docs)\<rparr>"
  let ?la = "l1 @ [GetCollection client collection_name]"
  let ?lb = "?la @ [ColGet collection_name None (Some [''documents'', ''metadatas''])]"
  let ?lc = "?lb @ [DeleteCollection client ?new]"
  let ?ld = "?lc @ [CreateCollection client ?new ?md]"
  from assms(2) have present: "collection_name \<in> set (map fst w1)"
    by (metis map_of_eq_None_iff option.distinct(1) set_map)
  have g: "on_world (client_get_collection (logged mem) client collection_name) (st1, (w1, l1))
      = (Inr collection_name, (st1, (w1, ?la)))"
    using present by (simp add: logged_simps on_world_def log_call_def mem_def mem_get_collection_def)
  have q: "on_world (col_get (logged mem) collection_name None (Some [''documents'', ''metadatas'']))
        (st1, (w1, ?la)) = (Inr ?data, (st1, (w1, ?lb)))"
    using assms(2) by (simp add: logged_simps on_world_def log_call_def mem_def mem_get_def Let_def)
  obtain rd wd where dl: "mem_delete_collection ?new w1 = (rd, wd)"
    by (cases "mem_delete_collection ?new w1")
  from mem_delete_collection_world[OF dl] have wd: "wd = ?w2" .
  have d: "try_except (on_world (client_delete_collection (logged mem) client ?new)) (\<lambda>e. ret ())
        (st1, (w1, ?lb)) = (Inr (), (st1, (?w2, ?lc)))"
    using dl wd
    by (cases rd) (simp_all add: logged_simps on_world_def log_call_def mem_def try_except_def ret_def)
  have cr: "on_world (client_create_collection (logged mem) client ?new ?md) (st1, (?w2, ?lc))
      = (Inr ?new, (st1, (?w3, ?ld)))"
    using key_not_in_filter[of ?new w1]
    by (simp add: logged_simps on_world_def log_call_def mem_def mem_create_def)
  have ids: "py_or (Some (map fst ?docs)) [] = map fst ?docs"
    by (simp add: py_or_def)
  show ?thesis
  proof (cases "?docs = []")
    case True
    have ids0: "py_or (Some ([] :: string list)) [] = []"
      by (simp add: py_or_def)
    show ?thesis
      unfolding fork_collection_def
      using assms(1) g q d cr True ids0
      by (simp add: then_do_def ret_def)
  next
    case False
    let ?ids = "map fst ?docs"
    let ?ds = "map (\<lambda>(i, d, m). d) ?docs"
    let ?ms = "map (\<lambda>(i, d, m). m) ?docs"
    have a0: "mem_add ?new ?ids ?ds ?ms ?w3
        = (Inr (), ?w2 @ [(?new, \<lparr>c_metadata = ?md, c_docs = ?docs\<rparr>)])"
    proof -
      have fresh: "?new \<notin> set (map fst ?w2)" by (rule key_not_in_filter)
      have mo: "map_of ?w3 ?new = Some \<lparr>c_metadata = ?md, c_docs = []\<rparr>"
        by (rule map_of_last[OF fresh])
      have up: "upd_col ?new f ?w3 = ?w2 @ [(?new, f \<lparr>c_metadata = ?md, c_docs = []\<rparr>)]" for f
        by (rule upd_col_last[OF fresh])
      show ?thesis
        unfolding mem_add_def mo up
        using False assms(3) by (simp add: zip_docs)
    qed
    have a: "on_world (col_add (logged mem) ?new ?ids ?ds ?ms) (st1, (?w3, ?ld))
        = (Inr (), (st1, (?w2 @ [(?new, \<lparr>c_metadata = ?md, c_docs = ?docs\<rparr>)],
                          ?ld @ [ColAdd ?new ?ids ?ds ?ms])))"
      using a0 by (simp add: logged_simps on_world_def log_call_def mem_def)
    have pd: "py_or (Some ?ds) (replicate (length ?docs) '''') = ?ds"
      and pm: "py_or (Some ?ms) (replicate (length ?docs) []) = ?ms"
      using False by (simp_all add: py_or_def)
    show ?thesis
      unfolding fork_collection_def
      using assms(1) g q d cr False a
      by (simp add: then_do_def ids pd pm Let_def)
  qed
qed


text \<open>
  The theorem at a source with two documents forked over an occupied name, and at an
  empty source, where the log ends with the create call.
\<close>

theorem fork_collection_copies_witness:
  "fork_collection (logged mem) ''c'' ''e'' None
      (\<lparr>store_root = Path True [''p''], store_client = Some ()\<rparr>,
       ([(''c'', \<lparr>c_metadata = [], c_docs = [(''a'', ''doc a'', [(''k'', ''v'')]), (''b'', ''doc b'', [])]\<rparr>),
         (''e'', \<lparr>c_metadata = [(''x'', ''y'')], c_docs = [(''old'', ''old doc'', [])]\<rparr>)], []))
    = (Inr (),
       (\<lparr>store_root = Path True [''p''], store_client = Some ()\<rparr>,
        ([(''c'', \<lparr>c_metadata = [], c_docs = [(''a'', ''doc a'', [(''k'', ''v'')]), (''b'', ''doc b'', [])]\<rparr>),
          (''e'', \<lparr>c_metadata = [], c_docs = [(''a'', ''doc a'', [(''k'', ''v'')]), (''b'', ''doc b'', [])]\<rparr>)],
         [GetCollection () ''c'', ColGet ''c'' None (Some [''documents'', ''metadatas'']),
          DeleteCollection () ''e'', CreateCollection () ''e'' [],
          ColAdd ''e'' [''a'', ''b''] [''doc a'', ''doc b''] [[(''k'', ''v'')], []]])))
   \<and> fork_collection (logged mem) ''c'' ''n'' None
      (\<lparr>store_root = Path True [''p''], store_client = Some ()\<rparr>,
       ([(''c'', \<lparr>c_metadata = [], c_docs = []\<rparr>)], []))
    = (Inr (),
       (\<lparr>store_root = Path True [''p''], store_client = Some ()\<rparr>,
        ([(''c'', \<lparr>c_metadata = [], c_docs = []\<rparr>), (''n'', \<lparr>c_metadata = [], c_docs = []\<rparr>)],
         [GetCollection () ''c'', ColGet ''c'' None (Some [''documents'', ''metadatas'']),
          DeleteCollection () ''n'', CreateCollection () ''n'' []])))"
proof -
  have c1: "client_or_raise (logged mem)
      (\<lparr>store_root = Path True [''p''], store_client = Some ()\<rparr>,
       ([(''c'', \<lparr>c_metadata = [], c_docs = [(''a'', ''doc a'', [(''k'', ''v'')]), (''b'', ''doc b'', [])]\<rparr>),
         (''e'', \<lparr>c_metadata = [(''x'', ''y'')], c_docs = [(''old'', ''old doc'', [])]\<rparr>)], []))
     = (Inr (), (\<lparr>store_root = Path True [''p''], store_client = Some ()\<rparr>,
       ([(''c'', \<lparr>c_metadata = [], c_docs = [(''a'', ''doc a'', [(''k'', ''v'')]), (''b'', ''doc b'', [])]\<rparr>),
         (''e'', \<lparr>c_metadata = [(''x'', ''y'')], c_docs = [(''old'', ''old doc'', [])]\<rparr>)], [])))"
    by (simp add: client_or_raise_def)
  have m1: "map_of [(''c'', \<lparr>c_metadata = [], c_docs = [(''a'', ''doc a'', [(''k'', ''v'')]), (''b'', ''doc b'', [])]\<rparr>),
         (''e'', \<lparr>c_metadata = [(''x'', ''y'')], c_docs = [(''old'', ''old doc'', [])]\<rparr>)] ''c''
     = Some \<lparr>c_metadata = [], c_docs = [(''a'', ''doc a'', [(''k'', ''v'')]), (''b'', ''doc b'', [])]\<rparr>"
    by simp
  have d1: "distinct (map fst (c_docs \<lparr>c_metadata = [], c_docs = [(''a'', ''doc a'', [(''k'', ''v'')]), (''b'', ''doc b'', [])]\<rparr>))"
    by simp
  have c2: "client_or_raise (logged mem)
      (\<lparr>store_root = Path True [''p''], store_client = Some ()\<rparr>,
       ([(''c'', \<lparr>c_metadata = [], c_docs = []\<rparr>)], []))
     = (Inr (), (\<lparr>store_root = Path True [''p''], store_client = Some ()\<rparr>,
       ([(''c'', \<lparr>c_metadata = [], c_docs = []\<rparr>)], [])))"
    by (simp add: client_or_raise_def)
  have m2: "map_of [(''c'', \<lparr>c_metadata = [], c_docs = []\<rparr>)] ''c''
     = Some \<lparr>c_metadata = [], c_docs = []\<rparr>"
    by simp
  have d2: "distinct (map fst (c_docs \<lparr>c_metadata = [], c_docs = []\<rparr>))"
    by simp
  from fork_collection_copies[OF c1 m1 d1, of "''e''" None]
       fork_collection_copies[OF c2 m2 d2, of "''n''" None]
  show ?thesis by (simp add: py_or_def)
qed

end
